theory Spec2Isabelle
  imports Main "HOL-Library.AList"
begin

section \<open>JavaScript containers\<close>

text \<open>
  A JavaScript \<open>Map\<close> keeps its keys in insertion order: \<open>set\<close> on a key that is
  present replaces the value in place, \<open>set\<close> on a new key appends, \<open>delete\<close>
  removes the entry. It is modelled as an association list with distinct keys.
  A \<open>Set\<close> is a duplicate-free list in insertion order.
\<close>

definition map_get :: "('k \<times> 'v) list \<Rightarrow> 'k \<Rightarrow> 'v option" where
  "map_get m k = map_of m k"

definition map_has :: "('k \<times> 'v) list \<Rightarrow> 'k \<Rightarrow> bool" where
  "map_has m k = (map_of m k \<noteq> None)"

definition map_set :: "('k \<times> 'v) list \<Rightarrow> 'k \<Rightarrow> 'v \<Rightarrow> ('k \<times> 'v) list" where
  "map_set m k v = AList.update k v m"

definition map_delete :: "('k \<times> 'v) list \<Rightarrow> 'k \<Rightarrow> ('k \<times> 'v) list" where
  "map_delete m k = AList.delete k m"

definition map_keys :: "('k \<times> 'v) list \<Rightarrow> 'k list" where
  "map_keys m = map fst m"

definition map_values :: "('k \<times> 'v) list \<Rightarrow> 'v list" where
  "map_values m = map snd m"

definition set_add :: "'a list \<Rightarrow> 'a \<Rightarrow> 'a list" where
  "set_add xs x = (if x \<in> set xs then xs else xs @ [x])"

definition set_delete :: "'a list \<Rightarrow> 'a \<Rightarrow> 'a list" where
  "set_delete xs x = removeAll x xs"

text \<open>
  A JavaScript error object: an \<open>Error\<close> created with a message, or the \<open>TypeError\<close>
  that the runtime raises (a property read on \<open>undefined\<close> or \<open>null\<close>,
  \<open>JSON.stringify\<close> on a value it cannot serialise).
\<close>

datatype js_error = Error string | TypeError

text \<open>
  What application code (a handler) can throw, or reject its promise with: an error
  object with its message; \<open>undefined\<close> or \<open>null\<close>; or any other value, of which
  two things matter here: what reading its \<open>message\<close> property gives (\<open>None\<close> for
  \<open>undefined\<close>), and whether \<open>logger.error\<close> returns normally when given it (the
  logger runs \<open>JSON.stringify\<close> on a value that is not an \<open>Error\<close>, which throws a
  \<open>TypeError\<close> on a circular structure).
\<close>

datatype thrown = AnError string | Nullish | AValue "string option" bool

text \<open>
  The settlement of an awaited promise: fulfilled with a value, rejected with an error,
  or never settled.
\<close>

datatype 'a outcome = Resolved 'a | Rejected js_error | Pending

section \<open>DiscoveryManager (src/managers/discovery.manager.js)\<close>

record ServiceInfo =
  info_id :: string
  info_name :: string
  info_type :: string
  capabilities :: "string list"
  metadata :: "(string \<times> string) list"

record DiscoveryManager =
  services :: "(string \<times> ServiceInfo) list"
  servicesByCapability :: "(string \<times> string list) list"
  servicesByName :: "(string \<times> string) list"

text \<open>What the manager sends to the event emitter and the logger of its service.\<close>

datatype discovery_event =
    Emit string ServiceInfo
  | LogDebug string ServiceInfo

definition new_DiscoveryManager :: DiscoveryManager where
  "new_DiscoveryManager =
     \<lparr>services = [], servicesByCapability = [], servicesByName = []\<rparr>"

text \<open>
  The loop of \<open>handleServiceJoined\<close> over \<open>serviceInfo.capabilities\<close>: create the
  bucket when it is absent, then add the id to it.
\<close>

fun index_capabilities ::
  "string \<Rightarrow> string list \<Rightarrow> (string \<times> string list) list \<Rightarrow> (string \<times> string list) list"
where
  "index_capabilities i [] byCap = byCap"
| "index_capabilities i (capability # rest) byCap =
     (let byCap1 = (if \<not> map_has byCap capability then map_set byCap capability [] else byCap)
      in index_capabilities i rest
           (case map_get byCap1 capability of
              None \<Rightarrow> byCap1
            | Some ids \<Rightarrow> map_set byCap1 capability (set_add ids i)))"

definition handleServiceJoined ::
  "DiscoveryManager \<Rightarrow> ServiceInfo \<Rightarrow> DiscoveryManager \<times> discovery_event list"
where
  "handleServiceJoined dm serviceInfo =
     (\<lparr>services = map_set (services dm) (info_id serviceInfo) serviceInfo,
       servicesByCapability =
         index_capabilities (info_id serviceInfo) (capabilities serviceInfo)
           (servicesByCapability dm),
       servicesByName = map_set (servicesByName dm) (info_name serviceInfo) (info_id serviceInfo)\<rparr>,
      [Emit ''service:discovered'' serviceInfo,
       LogDebug (''Service discovered: '' @ info_name serviceInfo) serviceInfo])"

text \<open>
  The loop of \<open>handleServiceLeft\<close> over the capabilities of the departed record:
  remove the id from the bucket when there is one, and drop a bucket that became empty.
\<close>

fun unindex_capabilities ::
  "string \<Rightarrow> string list \<Rightarrow> (string \<times> string list) list \<Rightarrow> (string \<times> string list) list"
where
  "unindex_capabilities i [] byCap = byCap"
| "unindex_capabilities i (capability # rest) byCap =
     unindex_capabilities i rest
       (case map_get byCap capability of
          None \<Rightarrow> byCap
        | Some ids \<Rightarrow>
            (let ids1 = set_delete ids i
             in if length ids1 = 0 then map_delete byCap capability
                else map_set byCap capability ids1))"

definition handleServiceLeft ::
  "DiscoveryManager \<Rightarrow> string \<Rightarrow> DiscoveryManager \<times> discovery_event list"
where
  "handleServiceLeft dm serviceId =
     (case map_get (services dm) serviceId of
        None \<Rightarrow> (dm, [])
      | Some serviceInfo \<Rightarrow>
          (\<lparr>services = map_delete (services dm) serviceId,
            servicesByCapability =
              unindex_capabilities serviceId (capabilities serviceInfo)
                (servicesByCapability dm),
            servicesByName = map_delete (servicesByName dm) (info_name serviceInfo)\<rparr>,
           [Emit ''service:lost'' serviceInfo,
            LogDebug (''Service lost: '' @ info_name serviceInfo) serviceInfo]))"

text \<open>
  \<open>findServicesByCapability\<close>: the ids of the bucket (or of an empty set), each looked
  up in the primary map, then \<open>filter(Boolean)\<close>. An element of the intermediate array
  is a record or \<open>undefined\<close> (\<open>None\<close>); a record is an object and therefore truthy.
\<close>

definition Boolean :: "'a option \<Rightarrow> bool" where
  "Boolean x = (x \<noteq> None)"

definition findServicesByCapability ::
  "DiscoveryManager \<Rightarrow> string \<Rightarrow> ServiceInfo option list"
where
  "findServicesByCapability dm capability =
     (let serviceIds = (case map_get (servicesByCapability dm) capability of
                          Some ids \<Rightarrow> ids | None \<Rightarrow> [])
      in filter Boolean (map (\<lambda>i. map_get (services dm) i) serviceIds))"

text \<open>
  \<open>findServiceByName\<close>: the id is used only when it is truthy, that is, when it is
  not the empty string; otherwise the function returns \<open>undefined\<close>.
\<close>

definition findServiceByName :: "DiscoveryManager \<Rightarrow> string \<Rightarrow> ServiceInfo option" where
  "findServiceByName dm name =
     (case map_get (servicesByName dm) name of
        None \<Rightarrow> None
      | Some serviceId \<Rightarrow> (if serviceId \<noteq> [] then map_get (services dm) serviceId else None))"

definition findServiceById :: "DiscoveryManager \<Rightarrow> string \<Rightarrow> ServiceInfo option" where
  "findServiceById dm i = map_get (services dm) i"

text \<open>
  The broker events that reach the manager (the \<open>broker:event\<close> switch of
  src/satellite.js), and a run of them from a given state.
\<close>

datatype broker_event = ServiceJoined ServiceInfo | ServiceLeft string

fun on_broker_event :: "DiscoveryManager \<Rightarrow> broker_event \<Rightarrow> DiscoveryManager" where
  "on_broker_event dm (ServiceJoined serviceInfo) = fst (handleServiceJoined dm serviceInfo)"
| "on_broker_event dm (ServiceLeft serviceId) = fst (handleServiceLeft dm serviceId)"

definition run_broker_events :: "broker_event list \<Rightarrow> DiscoveryManager" where
  "run_broker_events evs = foldl on_broker_event new_DiscoveryManager evs"

text \<open>Readings of the indices used in the statements below.\<close>

definition bucket :: "DiscoveryManager \<Rightarrow> string \<Rightarrow> string list" where
  "bucket dm c = (case map_get (servicesByCapability dm) c of Some ids \<Rightarrow> ids | None \<Rightarrow> [])"

definition lists_capability :: "DiscoveryManager \<Rightarrow> string \<Rightarrow> string \<Rightarrow> bool" where
  "lists_capability dm i c =
     (case map_get (services dm) i of
        None \<Rightarrow> False
      | Some serviceInfo \<Rightarrow> c \<in> set (capabilities serviceInfo))"

definition bucket_of :: "(string \<times> string list) list \<Rightarrow> string \<Rightarrow> string list" where
  "bucket_of byCap c = (case map_get byCap c of Some ids \<Rightarrow> ids | None \<Rightarrow> [])"

section \<open>The transport client and the trace of effects\<close>

text \<open>
  A handler (a JavaScript function) is identified by a number: two references are the
  same handler exactly when the numbers are equal, as \<open>Set\<close> membership compares
  them. Payloads are opaque values.
\<close>

type_synonym handler = nat
type_synonym payload = string

text \<open>
  The requests the managers send through \<open>this.service.client.request(name, body)\<close>,
  one constructor per request name, with the fields of the body. The client is the
  external transport: it is taken as a parameter that says how the promise of each
  request settles.
\<close>

datatype client_request =
    BrokerSubscribe string
  | BrokerUnsubscribe string
  | BrokerPublish string payload
  | BrokerRequest string string payload nat
  | BrokerNotify string string payload

type_synonym client = "client_request \<Rightarrow> payload outcome"

record HandlerInfo =
  topic :: string
  timestamp :: nat
  publisher :: string

text \<open>
  Every call that leaves a manager is recorded, in order: requests to the client, calls
  of registered handlers, replies through the request context, rejections of pending
  requests, emitted events and log lines.
\<close>

datatype event =
    ClientRequest client_request
  | ClientDisconnect
  | TopicHandlerCall handler payload HandlerInfo
  | MethodHandlerCall handler payload
  | ContextSuccess payload
  | ContextError string string
  | ContextErrorUndefined string
  | PendingReject nat js_error
  | EventsEmit string
  | LoggerInfo string
  | LoggerDebug string
  | LoggerError string js_error
  | LoggerErrorValue string thrown

text \<open>
  \<open>ContextErrorUndefined code\<close> is the call \<open>context.error(code, undefined)\<close>;
  \<open>LoggerErrorValue\<close> is the call of \<open>logger.error\<close> with a value that is not an
  error object.

  \<open>logger.error(text, value)\<close> (src/utils/logger.util.js): an \<open>Error\<close> is printed by
  its stack; \<open>undefined\<close> becomes the default \<open>null\<close> and \<open>null\<close> prints no data;
  any other value goes through \<open>JSON.stringify\<close>, and the call throws when that does.
\<close>

fun logger_accepts :: "thrown \<Rightarrow> bool" where
  "logger_accepts (AnError msg) = True"
| "logger_accepts Nullish = True"
| "logger_accepts (AValue msg ok) = ok"

fun logger_error :: "string \<Rightarrow> thrown \<Rightarrow> event" where
  "logger_error text (AnError msg) = LoggerError text (Error msg)"
| "logger_error text Nullish = LoggerErrorValue text Nullish"
| "logger_error text (AValue msg ok) = LoggerErrorValue text (AValue msg ok)"

section \<open>TopicManager (src/managers/topic.manager.js)\<close>

record Subscription =
  sub_timestamp :: nat
  sub_handler :: handler

record TopicManager =
  subscriptions :: "(string \<times> Subscription) list"
  handlers :: "(string \<times> handler list) list"

definition new_TopicManager :: TopicManager where
  "new_TopicManager = \<lparr>subscriptions = [], handlers = []\<rparr>"

text \<open>
  \<open>subscribe\<close>: the request to the broker is awaited first; the handler table and the
  subscription table are written only after it is fulfilled. A rejection is logged and
  rethrown. \<open>now\<close> is the value of \<open>Date.now()\<close>.
\<close>

definition subscribe ::
  "client \<Rightarrow> nat \<Rightarrow> TopicManager \<Rightarrow> string \<Rightarrow> handler \<Rightarrow> unit outcome \<times> TopicManager \<times> event list"
where
  "subscribe client now tm t h =
     (case client (BrokerSubscribe t) of
        Resolved response \<Rightarrow>
          (let hs1 = (if \<not> map_has (handlers tm) t then map_set (handlers tm) t []
                      else handlers tm);
               hs2 = (case map_get hs1 t of
                        None \<Rightarrow> hs1
                      | Some s \<Rightarrow> map_set hs1 t (set_add s h))
           in (Resolved (),
               \<lparr>subscriptions =
                  map_set (subscriptions tm) t \<lparr>sub_timestamp = now, sub_handler = h\<rparr>,
                handlers = hs2\<rparr>,
               [ClientRequest (BrokerSubscribe t),
                LoggerDebug (''Subscribed to topic: '' @ t)]))
      | Rejected error \<Rightarrow>
          (Rejected error, tm,
           [ClientRequest (BrokerSubscribe t),
            LoggerError (''Failed to subscribe to topic: '' @ t) error])
      | Pending \<Rightarrow> (Pending, tm, [ClientRequest (BrokerSubscribe t)]))"

definition unsubscribeFromBroker ::
  "client \<Rightarrow> TopicManager \<Rightarrow> string \<Rightarrow> unit outcome \<times> TopicManager \<times> event list"
where
  "unsubscribeFromBroker client tm t =
     (case client (BrokerUnsubscribe t) of
        Resolved response \<Rightarrow>
          (Resolved (),
           \<lparr>subscriptions = map_delete (subscriptions tm) t,
            handlers = map_delete (handlers tm) t\<rparr>,
           [ClientRequest (BrokerUnsubscribe t)])
      | Rejected error \<Rightarrow>
          (Rejected error, tm,
           [ClientRequest (BrokerUnsubscribe t),
            LoggerError (''Failed to unsubscribe from broker for topic: '' @ t) error])
      | Pending \<Rightarrow> (Pending, tm, [ClientRequest (BrokerUnsubscribe t)]))"

text \<open>
  \<open>unsubscribe(topic, handler = null)\<close>. With a handler, it is deleted from the
  topic's set (the \<open>Set\<close> object is mutated in place) and the broker is told only when
  the set became empty; without one, the broker is told at once.
\<close>

definition unsubscribe ::
  "client \<Rightarrow> TopicManager \<Rightarrow> string \<Rightarrow> handler option \<Rightarrow> unit outcome \<times> TopicManager \<times> event list"
where
  "unsubscribe client tm t handler =
     (let (r, tm1, tr) =
        (case handler of
           Some h \<Rightarrow>
             (case map_get (handlers tm) t of
                None \<Rightarrow> (Resolved (), tm, [])
              | Some hs \<Rightarrow>
                  (let hs1 = set_delete hs h;
                       tm0 = tm\<lparr>handlers := map_set (handlers tm) t hs1\<rparr>
                   in if length hs1 = 0 then unsubscribeFromBroker client tm0 t
                      else (Resolved (), tm0, [])))
         | None \<Rightarrow> unsubscribeFromBroker client tm t)
      in (case r of
            Resolved u \<Rightarrow> (Resolved (), tm1, tr @ [LoggerDebug (''Unsubscribed from topic: '' @ t)])
          | Rejected error \<Rightarrow>
              (Rejected error, tm1,
               tr @ [LoggerError (''Failed to unsubscribe from topic: '' @ t) error])
          | Pending \<Rightarrow> (Pending, tm1, tr)))"

definition publish ::
  "client \<Rightarrow> TopicManager \<Rightarrow> string \<Rightarrow> payload \<Rightarrow> unit outcome \<times> TopicManager \<times> event list"
where
  "publish client tm t d =
     (case client (BrokerPublish t d) of
        Resolved response \<Rightarrow>
          (Resolved (), tm,
           [ClientRequest (BrokerPublish t d), LoggerDebug (''Published to topic: '' @ t)])
      | Rejected error \<Rightarrow>
          (Rejected error, tm,
           [ClientRequest (BrokerPublish t d),
            LoggerError (''Failed to publish to topic: '' @ t) error])
      | Pending \<Rightarrow> (Pending, tm, [ClientRequest (BrokerPublish t d)]))"

text \<open>
  \<open>cleanup\<close>: the keys of the subscription table are copied first, then each topic is
  unsubscribed in the no-handler form; the loop stops at the first unsubscribe that
  does not return.
\<close>

fun unsubscribe_each ::
  "client \<Rightarrow> TopicManager \<Rightarrow> string list \<Rightarrow> unit outcome \<times> TopicManager \<times> event list"
where
  "unsubscribe_each client tm [] = (Resolved (), tm, [])"
| "unsubscribe_each client tm (t # ts) =
     (case unsubscribe client tm t None of
        (Resolved u, tm1, tr) \<Rightarrow>
          (case unsubscribe_each client tm1 ts of (r, tm2, tr2) \<Rightarrow> (r, tm2, tr @ tr2))
      | (Rejected error, tm1, tr) \<Rightarrow> (Rejected error, tm1, tr)
      | (Pending, tm1, tr) \<Rightarrow> (Pending, tm1, tr))"

definition TopicManager_cleanup ::
  "client \<Rightarrow> TopicManager \<Rightarrow> unit outcome \<times> TopicManager \<times> event list"
where
  "TopicManager_cleanup client tm = unsubscribe_each client tm (map_keys (subscriptions tm))"

text \<open>
  The listener for \<open>broker:message\<close>. The behaviour of the subscribed functions is a
  parameter: what awaiting the call of handler \<open>h\<close> on the data and the info object
  gives: the call returns, throws (or rejects with) a value, or never settles. The loop
  awaits each handler before it calls the next one, so a handler whose promise never
  settles ends the delivery. A thrown value is caught and handed to \<open>logger.error\<close>;
  when the logger throws on it, the exception leaves the loop and is caught and logged
  by the outer \<open>catch\<close>.
\<close>

record MessageMetadata =
  meta_timestamp :: nat
  meta_publisher :: string

record TopicMessage =
  msg_topic :: string
  msg_data :: payload
  msg_metadata :: MessageMetadata

datatype call_result = Returned | Threw thrown | Stalled

type_synonym topic_handlers = "handler \<Rightarrow> payload \<Rightarrow> HandlerInfo \<Rightarrow> call_result"

definition handler_info :: "TopicMessage \<Rightarrow> HandlerInfo" where
  "handler_info m =
     \<lparr>topic = msg_topic m,
      timestamp = meta_timestamp (msg_metadata m),
      publisher = meta_publisher (msg_metadata m)\<rparr>"

text \<open>
  The \<open>for\<close> loop: the exception that leaves it, if any, and the calls made.
\<close>

fun deliver ::
  "topic_handlers \<Rightarrow> TopicMessage \<Rightarrow> handler list \<Rightarrow> js_error option \<times> event list"
where
  "deliver run m [] = (None, [])"
| "deliver run m (h # hs) =
     (case run h (msg_data m) (handler_info m) of
        Returned \<Rightarrow>
          (case deliver run m hs of
             (x, tr) \<Rightarrow> (x, TopicHandlerCall h (msg_data m) (handler_info m) # tr))
      | Threw error \<Rightarrow>
          (if logger_accepts error
           then (case deliver run m hs of
                   (x, tr) \<Rightarrow>
                     (x, TopicHandlerCall h (msg_data m) (handler_info m) #
                         logger_error (''Error in topic handler for '' @ msg_topic m) error #
                         tr))
           else (Some TypeError,
                 [TopicHandlerCall h (msg_data m) (handler_info m),
                  logger_error (''Error in topic handler for '' @ msg_topic m) error]))
      | Stalled \<Rightarrow> (None, [TopicHandlerCall h (msg_data m) (handler_info m)]))"

definition on_broker_message :: "topic_handlers \<Rightarrow> TopicManager \<Rightarrow> TopicMessage \<Rightarrow> event list" where
  "on_broker_message run tm m =
     (case map_get (handlers tm) (msg_topic m) of
        None \<Rightarrow> []
      | Some hs \<Rightarrow>
          (case deliver run m hs of
             (None, tr) \<Rightarrow> tr
           | (Some error, tr) \<Rightarrow>
               tr @ [LoggerError ''Error handling incoming message'' error]))"

text \<open>Readings of a result and of a trace.\<close>

definition result_of :: "'r \<times> 's \<times> event list \<Rightarrow> 'r" where
  "result_of x = fst x"

definition state_of :: "'r \<times> 's \<times> event list \<Rightarrow> 's" where
  "state_of x = fst (snd x)"

definition trace_of :: "'r \<times> 's \<times> event list \<Rightarrow> event list" where
  "trace_of x = snd (snd x)"


fun is_subscribe_request :: "event \<Rightarrow> bool" where
  "is_subscribe_request (ClientRequest (BrokerSubscribe t)) = True"
| "is_subscribe_request e = False"

section \<open>RequestManager (src/managers/request.manager.js)\<close>

text \<open>
  An options object is a finite map from property names to numbers (\<open>timeout\<close> is in
  milliseconds); a property that the object does not have is \<open>None\<close>. The object
  spread \<open>{timeout: d, ...options}\<close> is the overriding of maps.
\<close>

type_synonym js_options = "string \<rightharpoonup> nat"

record MethodInfo =
  handler :: handler
  options :: js_options

record RequestManager =
  methods :: "(string \<times> MethodInfo) list"
  pendingRequests :: "(string \<times> nat) list"
  defaultTimeout :: nat

text \<open>
  An entry of \<open>pendingRequests\<close> is an object with a \<open>reject\<close> function; it is
  identified by the number of the promise that \<open>reject\<close> settles.
\<close>

definition new_RequestManager :: RequestManager where
  "new_RequestManager = \<lparr>methods = [], pendingRequests = [], defaultTimeout = 30000\<rparr>"

text \<open>
  \<open>registerMethod\<close> throws when the name is taken; the result says so, and the
  manager is returned as the call leaves it.
\<close>

definition registerMethod ::
  "RequestManager \<Rightarrow> string \<Rightarrow> handler \<Rightarrow> js_options
     \<Rightarrow> (js_error + unit) \<times> RequestManager \<times> event list"
where
  "registerMethod rm name h opts =
     (if map_has (methods rm) name
      then (Inl (Error (''Method '' @ name @ '' already registered'')), rm, [])
      else (Inr (),
            rm\<lparr>methods :=
                 map_set (methods rm) name
                   \<lparr>handler = h,
                    options = [''timeout'' \<mapsto> defaultTimeout rm] ++ opts\<rparr>\<rparr>,
            [LoggerDebug (''Registered method: '' @ name)]))"

definition unregisterMethod :: "RequestManager \<Rightarrow> string \<Rightarrow> RequestManager \<times> event list" where
  "unregisterMethod rm name =
     (if map_has (methods rm) name
      then (rm\<lparr>methods := map_delete (methods rm) name\<rparr>,
            [LoggerDebug (''Unregistered method: '' @ name)])
      else (rm, []))"

text \<open>
  \<open>sendRequest\<close>: \<open>options.timeout || this.defaultTimeout\<close> takes the default when the
  property is absent or zero. The promise of the client is awaited and its settlement
  handed on; no entry is made in \<open>pendingRequests\<close>.
\<close>

definition sendRequest ::
  "client \<Rightarrow> RequestManager \<Rightarrow> string \<Rightarrow> string \<Rightarrow> payload \<Rightarrow> js_options
     \<Rightarrow> payload outcome \<times> RequestManager \<times> event list"
where
  "sendRequest client rm target method d opts =
     (let tmo = (case opts ''timeout'' of
                   None \<Rightarrow> defaultTimeout rm
                 | Some t \<Rightarrow> (if t = 0 then defaultTimeout rm else t));
          req = BrokerRequest target method d tmo
      in (case client req of
            Resolved response \<Rightarrow> (Resolved response, rm, [ClientRequest req])
          | Rejected error \<Rightarrow>
              (Rejected error, rm,
               [ClientRequest req, LoggerError (''Failed to send request: '' @ method) error])
          | Pending \<Rightarrow> (Pending, rm, [ClientRequest req])))"

text \<open>
  What calling a method handler gives. The handler is passed the context, so it can
  itself call \<open>context.success\<close> and \<open>context.error\<close>: these calls are listed, each
  with the number of milliseconds after the start of the handler at which it is made.
  The call of the handler ends in a synchronous throw, or gives a promise, which is
  fulfilled or rejected a number of milliseconds after the call, or never settles (a
  handler that returns a plain value is a promise fulfilled at once).
  \<open>Promise.race\<close> of two promises settles as the one that settles first does; of two
  that settle at the same instant the one listed first wins, as it does for promises
  that are already settled.
\<close>

datatype context_call = ReplySuccess payload | ReplyError string string

fun context_event :: "context_call \<Rightarrow> event" where
  "context_event (ReplySuccess v) = ContextSuccess v"
| "context_event (ReplyError c msg) = ContextError c msg"

datatype settlement = Settles nat "thrown + payload" | Never

datatype completion = Throws thrown | Promise settlement

datatype handler_run =
  HandlerRun (context_calls: "(nat \<times> context_call) list") (completion: completion)

fun promise_race :: "settlement \<Rightarrow> settlement \<Rightarrow> settlement" where
  "promise_race Never q = q"
| "promise_race (Settles d r) Never = Settles d r"
| "promise_race (Settles d r) (Settles d' r') =
     (if d \<le> d' then Settles d r else Settles d' r')"

record RequestContext =
  ctx_method :: string
  ctx_payload :: payload

type_synonym method_handlers = "handler \<Rightarrow> payload \<Rightarrow> RequestContext \<Rightarrow> handler_run"

text \<open>
  The delay given to \<open>setTimeout\<close> is \<open>methodInfo.options.timeout\<close>, \<open>undefined\<close>
  when the property is absent. The timer of the runtime replaces a delay that is not a
  number between 1 and 2147483647 by 1 ms.
\<close>

definition method_timeout :: "MethodInfo \<Rightarrow> nat" where
  "method_timeout methodInfo = (case options methodInfo ''timeout'' of None \<Rightarrow> 0 | Some t \<Rightarrow> t)"

definition setTimeout_delay :: "nat \<Rightarrow> nat" where
  "setTimeout_delay after = (if 1 \<le> after \<and> after \<le> 2147483647 then after else 1)"

text \<open>
  The \<open>catch\<close> block of \<open>handleIncomingRequest\<close>: \<open>logger.error\<close> with the caught
  value, then \<open>context.error('METHOD_ERROR', error.message)\<close>. When the logger throws,
  or when the caught value is \<open>undefined\<close> or \<open>null\<close> (reading \<open>message\<close> throws),
  the block is left by a \<open>TypeError\<close> before any reply is sent, and the promise of
  \<open>handleIncomingRequest\<close> is rejected.
\<close>

fun catch_request_error :: "string \<Rightarrow> thrown \<Rightarrow> unit outcome \<times> event list" where
  "catch_request_error method (AnError msg) =
     (Resolved (),
      [logger_error (''Error handling request: '' @ method) (AnError msg),
       ContextError ''METHOD_ERROR'' msg])"
| "catch_request_error method Nullish =
     (Rejected TypeError, [logger_error (''Error handling request: '' @ method) Nullish])"
| "catch_request_error method (AValue msg ok) =
     (if ok
      then (Resolved (),
            [logger_error (''Error handling request: '' @ method) (AValue msg ok),
             (case msg of
                Some text \<Rightarrow> ContextError ''METHOD_ERROR'' text
              | None \<Rightarrow> ContextErrorUndefined ''METHOD_ERROR'')])
      else (Rejected TypeError,
            [logger_error (''Error handling request: '' @ method) (AValue msg ok)]))"

text \<open>
  The calls the handler itself makes on the context, up to an instant and after it.
\<close>

definition calls_until :: "nat \<Rightarrow> handler_run \<Rightarrow> event list" where
  "calls_until t r = map (\<lambda>x. context_event (snd x)) (filter (\<lambda>x. fst x \<le> t) (context_calls r))"

definition calls_after :: "nat \<Rightarrow> handler_run \<Rightarrow> event list" where
  "calls_after t r =
     map (\<lambda>x. context_event (snd x)) (filter (\<lambda>x. \<not> fst x \<le> t) (context_calls r))"

text \<open>
  \<open>handleIncomingRequest\<close>. The handlers are a parameter, as for topics; the functions
  \<open>success\<close> and \<open>error\<close> of the context belong to the transport and are taken to
  return normally. The result is how the promise of the function settles, the manager
  (unchanged), and the calls made: the call of the handler, what the handler sends
  through the context until the race settles, what the function logs and replies, and
  what the handler sends through the context later.
\<close>

definition handleIncomingRequest ::
  "RequestManager \<Rightarrow> method_handlers \<Rightarrow> RequestContext
     \<Rightarrow> unit outcome \<times> RequestManager \<times> event list"
where
  "handleIncomingRequest rm run context =
     (case map_get (methods rm) (ctx_method context) of
        None \<Rightarrow>
          (case catch_request_error (ctx_method context)
                  (AnError (''Method '' @ ctx_method context @ '' not found'')) of
             (r, tr) \<Rightarrow> (r, rm, tr))
      | Some methodInfo \<Rightarrow>
          (let hr = run (handler methodInfo) (ctx_payload context) context;
               (at, r, tr) =
                 (case completion hr of
                    Throws error \<Rightarrow> (0, catch_request_error (ctx_method context) error)
                  | Promise p \<Rightarrow>
                      (case promise_race p
                              (Settles (setTimeout_delay (method_timeout methodInfo))
                                 (Inl (AnError ''Method timeout''))) of
                         Settles d (Inr result) \<Rightarrow> (d, Resolved (), [ContextSuccess result])
                       | Settles d (Inl error) \<Rightarrow>
                           (d, catch_request_error (ctx_method context) error)
                       | Never \<Rightarrow> (0, Pending, [])))
           in (r, rm,
               MethodHandlerCall (handler methodInfo) (ctx_payload context) #
                 calls_until at hr @ tr @ calls_after at hr)))"

definition RequestManager_cleanup :: "RequestManager \<Rightarrow> RequestManager \<times> event list" where
  "RequestManager_cleanup rm =
     (rm\<lparr>pendingRequests := [], methods := []\<rparr>,
      map (\<lambda>request. PendingReject request (Error ''Service stopping''))
        (map_values (pendingRequests rm)))"

fun is_reply :: "event \<Rightarrow> bool" where
  "is_reply (ContextSuccess v) = True"
| "is_reply (ContextError c m) = True"
| "is_reply (ContextErrorUndefined c) = True"
| "is_reply e = False"

fun is_method_call :: "event \<Rightarrow> bool" where
  "is_method_call (MethodHandlerCall h d) = True"
| "is_method_call e = False"

fun is_pending_reject :: "event \<Rightarrow> bool" where
  "is_pending_reject (PendingReject p e) = True"
| "is_pending_reject e = False"

section \<open>Satellite (src/satellite.js)\<close>

record Satellite =
  topics :: TopicManager
  discovery :: DiscoveryManager
  requests :: RequestManager
  ready :: bool
  connected :: bool
  identified :: bool

definition new_Satellite :: Satellite where
  "new_Satellite =
     \<lparr>topics = new_TopicManager, discovery = new_DiscoveryManager,
      requests = new_RequestManager, ready = False, connected = False, identified = False\<rparr>"

definition request ::
  "client \<Rightarrow> Satellite \<Rightarrow> string \<Rightarrow> string \<Rightarrow> payload \<Rightarrow> payload outcome \<times> Satellite \<times> event list"
where
  "request client sat target method d =
     (case sendRequest client (requests sat) target method d Map.empty of
        (r, rm, tr) \<Rightarrow> (r, sat\<lparr>requests := rm\<rparr>, tr))"

text \<open>
  \<open>stop\<close>: the topics are cleaned up, then the client is disconnected (how the promise
  of \<open>disconnect\<close> settles is a parameter), then the flags are cleared. A rejection on
  the way is logged and rethrown. The body does not touch the request manager.
\<close>

definition stop ::
  "client \<Rightarrow> unit outcome \<Rightarrow> Satellite \<Rightarrow> unit outcome \<times> Satellite \<times> event list"
where
  "stop client disconnect sat =
     (case TopicManager_cleanup client (topics sat) of
        (Resolved u, tm, tr) \<Rightarrow>
          (case disconnect of
             Resolved u' \<Rightarrow>
               (Resolved (),
                sat\<lparr>topics := tm, ready := False, connected := False, identified := False\<rparr>,
                LoggerInfo ''Stopping service...'' # tr @
                  [ClientDisconnect, EventsEmit ''stopped'', LoggerInfo ''Service stopped''])
           | Rejected error \<Rightarrow>
               (Rejected error, sat\<lparr>topics := tm\<rparr>,
                LoggerInfo ''Stopping service...'' # tr @
                  [ClientDisconnect, LoggerError ''Error stopping service'' error])
           | Pending \<Rightarrow>
               (Pending, sat\<lparr>topics := tm\<rparr>,
                LoggerInfo ''Stopping service...'' # tr @ [ClientDisconnect]))
      | (Rejected error, tm, tr) \<Rightarrow>
          (Rejected error, sat\<lparr>topics := tm\<rparr>,
           LoggerInfo ''Stopping service...'' # tr @
             [LoggerError ''Error stopping service'' error])
      | (Pending, tm, tr) \<Rightarrow>
          (Pending, sat\<lparr>topics := tm\<rparr>, LoggerInfo ''Stopping service...'' # tr))"

section \<open>Specification-side readings and example inputs\<close>

text \<open>
  The reply the specification asks for, in its words: a success reply carrying the
  handler's result, an error reply carrying the timeout when the handler exceeded its
  deadline, or an error reply carrying the handler's own thrown error translated to a
  code and a message. It is compared below with what \<open>handleIncomingRequest\<close> sends.
\<close>

fun error_reply :: "thrown \<Rightarrow> event" where
  "error_reply (AnError msg) = ContextError ''METHOD_ERROR'' msg"
| "error_reply (AValue (Some msg) ok) = ContextError ''METHOD_ERROR'' msg"
| "error_reply (AValue None ok) = ContextErrorUndefined ''METHOD_ERROR''"
| "error_reply Nullish = ContextErrorUndefined ''METHOD_ERROR''"

definition spec_reply :: "nat \<Rightarrow> completion \<Rightarrow> event" where
  "spec_reply deadline r =
     (case r of
        Throws error \<Rightarrow> error_reply error
      | Promise Never \<Rightarrow> ContextError ''METHOD_ERROR'' ''Method timeout''
      | Promise (Settles d x) \<Rightarrow>
          (if deadline < d then ContextError ''METHOD_ERROR'' ''Method timeout''
           else (case x of
                   Inr result \<Rightarrow> ContextSuccess result
                 | Inl error \<Rightarrow> error_reply error)))"

text \<open>
  A value the \<open>catch\<close> block can answer with: the logger takes it and its \<open>message\<close>
  can be read. A handler fails answerably when what it throws or rejects with, if
  anything, is such a value.
\<close>

fun answerable :: "thrown \<Rightarrow> bool" where
  "answerable (AnError msg) = True"
| "answerable Nullish = False"
| "answerable (AValue msg ok) = ok"

fun fails_answerably :: "completion \<Rightarrow> bool" where
  "fails_answerably (Throws error) = answerable error"
| "fails_answerably (Promise (Settles d (Inl error))) = answerable error"
| "fails_answerably (Promise (Settles d (Inr result))) = True"
| "fails_answerably (Promise Never) = True"

text \<open>
  What one handler contributes to the delivery of a message when its call settles and
  the logger takes what it threw.
\<close>

definition delivery_to ::
  "topic_handlers \<Rightarrow> TopicMessage \<Rightarrow> handler \<Rightarrow> event list"
where
  "delivery_to run m h =
     TopicHandlerCall h (msg_data m)
       \<lparr>topic = msg_topic m, timestamp = meta_timestamp (msg_metadata m),
        publisher = meta_publisher (msg_metadata m)\<rparr> #
     (case run h (msg_data m) (handler_info m) of
        Threw error \<Rightarrow> [logger_error (''Error in topic handler for '' @ msg_topic m) error]
      | Returned \<Rightarrow> []
      | Stalled \<Rightarrow> [])"



definition svc :: "string \<Rightarrow> string \<Rightarrow> string list \<Rightarrow> ServiceInfo" where
  "svc i n cs =
     \<lparr>info_id = i, info_name = n, info_type = ''worker'', capabilities = cs, metadata = []\<rparr>"

text \<open>Service \<open>a\<close> joins with capability \<open>x\<close>, then joins again with capability \<open>y\<close>.\<close>

definition rejoined :: DiscoveryManager where
  "rejoined =
     run_broker_events
       [ServiceJoined (svc ''a'' ''n'' [''x'']), ServiceJoined (svc ''a'' ''n'' [''y''])]"

text \<open>After that, \<open>a\<close> leaves and service \<open>b\<close> joins with capability \<open>x\<close>.\<close>

definition rejoined_left :: DiscoveryManager where
  "rejoined_left =
     run_broker_events
       [ServiceJoined (svc ''a'' ''n'' [''x'']), ServiceJoined (svc ''a'' ''n'' [''y'']),
        ServiceLeft ''a'', ServiceJoined (svc ''b'' ''m'' [''x''])]"

text \<open>Services \<open>a\<close> and \<open>b\<close> join under the same name \<open>n\<close>, then \<open>a\<close> leaves.\<close>

definition same_name_left :: DiscoveryManager where
  "same_name_left =
     run_broker_events
       [ServiceJoined (svc ''a'' ''n'' [''x'']), ServiceJoined (svc ''b'' ''n'' [''x'']),
        ServiceLeft ''a'']"

text \<open>
  A client whose requests are all fulfilled, one whose requests never settle, and one
  whose requests are all rejected.
\<close>

definition accepting :: client where
  "accepting r = Resolved ''ok''"

definition silent :: client where
  "silent r = Pending"

definition refusing :: client where
  "refusing r = Rejected (Error ''refused'')"

text \<open>Handlers 1 and 2 subscribed to topic \<open>t\<close>.\<close>

definition one_subscribed :: TopicManager where
  "one_subscribed = state_of (subscribe accepting 100 new_TopicManager ''t'' 1)"

definition two_subscribed :: TopicManager where
  "two_subscribed = state_of (subscribe accepting 200 one_subscribed ''t'' 2)"

definition message_t :: TopicMessage where
  "message_t =
     \<lparr>msg_topic = ''t'', msg_data = ''d'',
      msg_metadata = \<lparr>meta_timestamp = 300, meta_publisher = ''p''\<rparr>\<rparr>"

text \<open>Handler 1 throws, every other handler returns.\<close>

definition first_throws :: topic_handlers where
  "first_throws h d i = (if h = 1 then Threw (AnError ''boom'') else Returned)"

text \<open>The call of handler 1 never settles, every other handler returns.\<close>

definition first_stalls :: topic_handlers where
  "first_stalls h d i = (if h = 1 then Stalled else Returned)"

text \<open>
  Handler 1 throws an object that \<open>JSON.stringify\<close> refuses, every other handler
  returns.
\<close>

definition first_throws_circular :: topic_handlers where
  "first_throws_circular h d i = (if h = 1 then Threw (AValue None False) else Returned)"

text \<open>
  Method \<open>x\<close> registered with handler 1 and a timeout of 10 ms; the handler fulfils its
  promise after 50 ms.
\<close>

definition x_registered :: RequestManager where
  "x_registered = state_of (registerMethod new_RequestManager ''x'' 1 [''timeout'' \<mapsto> 10])"

definition slow_handlers :: method_handlers where
  "slow_handlers h p c = HandlerRun [] (Promise (Settles 50 (Inr ''late'')))"

text \<open>
  A handler written as the README of the repository shows: it catches its own failure,
  calls \<open>context.error\<close> and returns, so that its promise is fulfilled with
  \<open>undefined\<close>.
\<close>

definition replying_handlers :: method_handlers where
  "replying_handlers h p c =
     HandlerRun [(0, ReplyError ''USER_CREATE_FAILED'' ''bad input'')]
       (Promise (Settles 0 (Inr ''undefined'')))"

text \<open>
  Method \<open>z\<close> registered with handler 3 and a timeout of 0 ms; the handler fulfils its
  promise after 1 ms.
\<close>

definition z_registered :: RequestManager where
  "z_registered = state_of (registerMethod new_RequestManager ''z'' 3 [''timeout'' \<mapsto> 0])"

definition quick_handlers :: method_handlers where
  "quick_handlers h p c = HandlerRun [] (Promise (Settles 1 (Inr ''done'')))"

definition call_z :: RequestContext where
  "call_z = \<lparr>ctx_method = ''z'', ctx_payload = ''p''\<rparr>"

text \<open>A handler whose promise is rejected with \<open>undefined\<close> after 5 ms.\<close>

definition undefined_rejecting_handlers :: method_handlers where
  "undefined_rejecting_handlers h p c = HandlerRun [] (Promise (Settles 5 (Inl Nullish)))"

definition call_x :: RequestContext where
  "call_x = \<lparr>ctx_method = ''x'', ctx_payload = ''p''\<rparr>"

definition call_y :: RequestContext where
  "call_y = \<lparr>ctx_method = ''y'', ctx_payload = ''p''\<rparr>"

section \<open>Facts about the containers\<close>

lemma map_get_map_set:
  "map_get (map_set m k v) k' = (if k' = k then Some v else map_get m k')"
  by (simp add: map_get_def map_set_def update_conv')

lemma map_get_map_delete:
  "map_get (map_delete m k) k' = (if k' = k then None else map_get m k')"
  by (simp add: map_get_def map_delete_def delete_conv')

lemma map_has_map_get: "map_has m k \<longleftrightarrow> map_get m k \<noteq> None"
  by (simp add: map_has_def map_get_def)

lemmas container_eval =
  map_set_def map_get_def map_has_def map_delete_def map_keys_def map_values_def
  set_add_def set_delete_def

lemmas registry_eval =
  run_broker_events_def svc_def new_DiscoveryManager_def handleServiceJoined_def
  handleServiceLeft_def bucket_def lists_capability_def findServiceByName_def
  findServiceById_def findServicesByCapability_def Boolean_def

lemmas reading_eval = state_of_def trace_of_def result_of_def

lemmas topic_eval =
  new_TopicManager_def subscribe_def unsubscribe_def unsubscribeFromBroker_def
  on_broker_message_def accepting_def silent_def refusing_def one_subscribed_def
  two_subscribed_def message_t_def first_throws_def first_stalls_def
  first_throws_circular_def handler_info_def delivery_to_def

lemmas request_eval =
  new_RequestManager_def registerMethod_def unregisterMethod_def sendRequest_def
  handleIncomingRequest_def method_timeout_def setTimeout_delay_def calls_until_def
  calls_after_def RequestManager_cleanup_def x_registered_def z_registered_def
  slow_handlers_def replying_handlers_def quick_handlers_def
  undefined_rejecting_handlers_def call_x_def call_y_def call_z_def spec_reply_def

lemmas satellite_eval =
  new_Satellite_def request_def stop_def TopicManager_cleanup_def new_DiscoveryManager_def

section \<open>Registry: lookups by capability\<close>

lemma filter_Boolean_mem:
  "x \<in> set (filter Boolean ys) \<longleftrightarrow> x \<in> set ys \<and> (\<exists>r. x = Some r)"
  by (cases x) (auto simp: Boolean_def)

text \<open>
  C10. Every element of the array returned by \<open>findServicesByCapability\<close> is a record
  that the primary map holds under an id of the capability's bucket; an id of the bucket
  with no record in the primary map contributes nothing, so the array holds no
  \<open>undefined\<close>.
\<close>

theorem findServicesByCapability_only_present:
  assumes "x \<in> set (findServicesByCapability dm c)"
  shows "\<exists>i r. x = Some r \<and> i \<in> set (bucket dm c) \<and> map_get (services dm) i = Some r"
proof -
  from assms have "x \<in> set (filter Boolean (map (\<lambda>i. map_get (services dm) i) (bucket dm c)))"
    by (simp add: findServicesByCapability_def bucket_def)
  then obtain r where xr: "x = Some r"
    and mem: "x \<in> set (map (\<lambda>i. map_get (services dm) i) (bucket dm c))"
    unfolding filter_Boolean_mem by blast
  from mem obtain i where "i \<in> set (bucket dm c)" "x = map_get (services dm) i"
    by auto
  with xr show ?thesis by auto
qed

theorem findServicesByCapability_only_present_witness:
  "Some (svc ''b'' ''m'' [''x'']) \<in> set (findServicesByCapability rejoined_left ''x'')
   \<and> bucket rejoined_left ''x'' = [''a'', ''b'']
   \<and> map_get (services rejoined_left) ''a'' = None
   \<and> (\<exists>i r. Some (svc ''b'' ''m'' [''x'']) = Some r \<and> i \<in> set (bucket rejoined_left ''x'')
          \<and> map_get (services rejoined_left) i = Some r)"
proof -
  have mem: "Some (svc ''b'' ''m'' [''x'']) \<in> set (findServicesByCapability rejoined_left ''x'')"
    by (simp add: rejoined_left_def registry_eval container_eval)
  have b: "bucket rejoined_left ''x'' = [''a'', ''b'']"
    by (simp add: rejoined_left_def registry_eval container_eval)
  have a: "map_get (services rejoined_left) ''a'' = None"
    by (simp add: rejoined_left_def registry_eval container_eval)
  from findServicesByCapability_only_present [OF mem] mem b a show ?thesis by blast
qed

section \<open>Registry: the indices under re-join and leave\<close>

text \<open>
  One half of the index invariant holds after every run of joins and leaves from the
  empty registry: an id whose record lists a capability is in the bucket of that
  capability. The loops change the bucket of a capability by the joining or leaving id
  only.
\<close>

lemma bucket_of_indexed_once:
  "bucket_of
     (case map_get (if \<not> map_has byCap c0 then map_set byCap c0 [] else byCap) c0 of
        None \<Rightarrow> (if \<not> map_has byCap c0 then map_set byCap c0 [] else byCap)
      | Some ids \<Rightarrow>
          map_set (if \<not> map_has byCap c0 then map_set byCap c0 [] else byCap) c0
            (set_add ids i)) c =
   (if c = c0 then set_add (bucket_of byCap c0) i else bucket_of byCap c)"
  by (auto simp: bucket_of_def map_get_map_set map_has_map_get split: option.splits)

lemma set_bucket_index_capabilities:
  "set (bucket_of (index_capabilities i cs byCap) c) =
     set (bucket_of byCap c) \<union> (if c \<in> set cs then {i} else {})"
proof (induction cs arbitrary: byCap)
  case Nil
  then show ?case by simp
next
  case (Cons c0 cs)
  have "set (bucket_of (index_capabilities i (c0 # cs) byCap) c) =
      set (if c = c0 then set_add (bucket_of byCap c0) i else bucket_of byCap c) \<union>
        (if c \<in> set cs then {i} else {})"
    by (simp only: index_capabilities.simps Let_def Cons.IH bucket_of_indexed_once)
  then show ?case by (auto simp: set_add_def)
qed

lemma bucket_of_unindexed_once:
  "bucket_of
     (case map_get byCap c0 of
        None \<Rightarrow> byCap
      | Some ids \<Rightarrow>
          (let ids1 = set_delete ids i
           in if length ids1 = 0 then map_delete byCap c0 else map_set byCap c0 ids1)) c =
   (if c = c0 then set_delete (bucket_of byCap c0) i else bucket_of byCap c)"
  by (auto simp: bucket_of_def map_get_map_set map_get_map_delete Let_def set_delete_def
        split: option.splits)

lemma set_bucket_unindex_capabilities:
  "set (bucket_of (unindex_capabilities i cs byCap) c) =
     set (bucket_of byCap c) - (if c \<in> set cs then {i} else {})"
proof (induction cs arbitrary: byCap)
  case Nil
  then show ?case by simp
next
  case (Cons c0 cs)
  have "set (bucket_of (unindex_capabilities i (c0 # cs) byCap) c) =
      set (if c = c0 then set_delete (bucket_of byCap c0) i else bucket_of byCap c) -
        (if c \<in> set cs then {i} else {})"
    by (simp only: unindex_capabilities.simps Cons.IH bucket_of_unindexed_once)
  then show ?case by (auto simp: set_delete_def)
qed

lemma bucket_bucket_of: "bucket dm c = bucket_of (servicesByCapability dm) c"
  by (simp add: bucket_def bucket_of_def)

lemma listed_indexed_joined:
  assumes "\<forall>i c. lists_capability dm i c \<longrightarrow> i \<in> set (bucket dm c)"
  shows "\<forall>i c. lists_capability (fst (handleServiceJoined dm r)) i c \<longrightarrow>
           i \<in> set (bucket (fst (handleServiceJoined dm r)) c)"
  using assms
  by (auto simp: handleServiceJoined_def lists_capability_def bucket_bucket_of
        set_bucket_index_capabilities map_get_map_set split: option.splits if_splits)

lemma listed_indexed_left:
  assumes "\<forall>i c. lists_capability dm i c \<longrightarrow> i \<in> set (bucket dm c)"
  shows "\<forall>i c. lists_capability (fst (handleServiceLeft dm j)) i c \<longrightarrow>
           i \<in> set (bucket (fst (handleServiceLeft dm j)) c)"
  using assms
  by (auto simp: handleServiceLeft_def lists_capability_def bucket_bucket_of
        set_bucket_unindex_capabilities map_get_map_delete split: option.splits if_splits)

lemma listed_indexed_foldl:
  assumes "\<forall>i c. lists_capability dm i c \<longrightarrow> i \<in> set (bucket dm c)"
  shows "\<forall>i c. lists_capability (foldl on_broker_event dm evs) i c \<longrightarrow>
           i \<in> set (bucket (foldl on_broker_event dm evs) c)"
  using assms
proof (induction evs arbitrary: dm)
  case Nil
  then show ?case by simp
next
  case (Cons ev evs)
  have "\<forall>i c. lists_capability (on_broker_event dm ev) i c \<longrightarrow>
          i \<in> set (bucket (on_broker_event dm ev) c)"
  proof (cases ev)
    case (ServiceJoined r)
    then show ?thesis using listed_indexed_joined [OF Cons.prems, of r] by simp
  next
    case (ServiceLeft j)
    then show ?thesis using listed_indexed_left [OF Cons.prems, of j] by simp
  qed
  then show ?case using Cons.IH by simp
qed

lemma listed_capability_is_indexed:
  assumes "lists_capability (run_broker_events evs) i c"
  shows "i \<in> set (bucket (run_broker_events evs) c)"
proof -
  have "\<forall>i c. lists_capability new_DiscoveryManager i c \<longrightarrow>
          i \<in> set (bucket new_DiscoveryManager c)"
    by (simp add: lists_capability_def new_DiscoveryManager_def map_get_def)
  then have "\<forall>i c. lists_capability (run_broker_events evs) i c \<longrightarrow>
          i \<in> set (bucket (run_broker_events evs) c)"
    unfolding run_broker_events_def by (rule listed_indexed_foldl)
  with assms show ?thesis by blast
qed

text \<open>
  C1. The claim asks that an id is in the bucket of capability \<open>c\<close> exactly when the
  record stored under the id lists \<open>c\<close>, after every sequence of joins and leaves, a
  re-join removing the entries of the previous version first. \<open>handleServiceJoined\<close>
  overwrites the record and adds the new capabilities, and removes nothing: after
  service \<open>a\<close> joined with capability \<open>x\<close> and joined again with capability \<open>y\<close>, the
  bucket of \<open>x\<close> still holds \<open>a\<close>, the record of \<open>a\<close> does not list \<open>x\<close>, and a
  search for \<open>x\<close> returns that record. (The half that holds is
  \<open>listed_capability_is_indexed\<close> above.)
\<close>

theorem rejoin_keeps_stale_capability_entry:
  "''a'' \<in> set (bucket rejoined ''x'') \<and>
   findServiceById rejoined ''a'' = Some (svc ''a'' ''n'' [''y'']) \<and>
   \<not> lists_capability rejoined ''a'' ''x'' \<and>
   findServicesByCapability rejoined ''x'' = [Some (svc ''a'' ''n'' [''y''])]"
  by (simp add: rejoined_def registry_eval container_eval)

text \<open>
  C5. The claim asks that \<open>leave\<close> removes the name entry only when it still points at
  the departing id. \<open>handleServiceLeft\<close> deletes the entry of the departed record's
  name whatever it points at: after \<open>a\<close> and \<open>b\<close> joined under the name \<open>n\<close> and \<open>a\<close>
  left, \<open>b\<close> is still known by id, the name index has no entry for \<open>n\<close>, and a search
  by name finds nothing.
\<close>

theorem leave_deletes_name_entry_of_other_id:
  "findServiceById same_name_left ''b'' = Some (svc ''b'' ''n'' [''x'']) \<and>
   map_get (servicesByName same_name_left) ''n'' = None \<and>
   findServiceByName same_name_left ''n'' = None"
  by (simp add: same_name_left_def registry_eval container_eval)

section \<open>TopicManager: subscribe\<close>

lemma subscribe_trace_head:
  "hd (trace_of (subscribe client now tm t h)) = ClientRequest (BrokerSubscribe t)"
  by (simp add: subscribe_def trace_of_def Let_def split: outcome.splits)

lemma subscribe_one_request:
  "filter is_subscribe_request (trace_of (subscribe client now tm t h)) =
     [ClientRequest (BrokerSubscribe t)]"
  by (simp add: subscribe_def trace_of_def Let_def split: outcome.splits)

lemma subscribe_resolved:
  assumes "client (BrokerSubscribe t) = Resolved v"
  shows "result_of (subscribe client now tm t h) = Resolved () \<and>
     map_get (handlers (state_of (subscribe client now tm t h))) t =
        Some (set_add (case map_get (handlers tm) t of None \<Rightarrow> [] | Some s \<Rightarrow> s) h)"
  using assms
  by (auto simp: subscribe_def result_of_def state_of_def Let_def map_get_map_set
        map_has_map_get split: option.splits)

lemma subscribe_rejected:
  assumes "client (BrokerSubscribe t) = Rejected e"
  shows "result_of (subscribe client now tm t h) = Rejected e \<and>
     state_of (subscribe client now tm t h) = tm"
  using assms by (simp add: subscribe_def result_of_def state_of_def)

lemma subscribe_pending:
  assumes "client (BrokerSubscribe t) = Pending"
  shows "result_of (subscribe client now tm t h) = Pending \<and>
     state_of (subscribe client now tm t h) = tm"
  using assms by (simp add: subscribe_def result_of_def state_of_def)

text \<open>
  C2, as amended. \<open>subscribe(t, h)\<close> sends the subscribe request to the broker first
  and exactly once, whether or not the topic already has local handlers. When the
  request is fulfilled, \<open>h\<close> is added to the topic's handler set, which is created when
  absent; when it is rejected or never settles, the manager is left as it was and the
  caller gets the rejection (or keeps waiting).
\<close>

theorem subscribe_always_asks_broker_first:
  "hd (trace_of (subscribe client now tm t h)) = ClientRequest (BrokerSubscribe t) \<and>
   filter is_subscribe_request (trace_of (subscribe client now tm t h)) =
     [ClientRequest (BrokerSubscribe t)] \<and>
   (client (BrokerSubscribe t) = Resolved v \<longrightarrow>
      result_of (subscribe client now tm t h) = Resolved () \<and>
      map_get (handlers (state_of (subscribe client now tm t h))) t =
        Some (set_add (case map_get (handlers tm) t of None \<Rightarrow> [] | Some s \<Rightarrow> s) h)) \<and>
   (client (BrokerSubscribe t) = Rejected e \<longrightarrow>
      result_of (subscribe client now tm t h) = Rejected e \<and>
      state_of (subscribe client now tm t h) = tm) \<and>
   (client (BrokerSubscribe t) = Pending \<longrightarrow>
      result_of (subscribe client now tm t h) = Pending \<and>
      state_of (subscribe client now tm t h) = tm)"
  using subscribe_trace_head [of client now tm t h] subscribe_one_request [of client now tm t h]
    subscribe_resolved [of client t v now tm h] subscribe_rejected [of client t e now tm h]
    subscribe_pending [of client t now tm h]
  by simp

theorem subscribe_always_asks_broker_first_witness:
  "map_get (handlers one_subscribed) ''t'' = Some [1] \<and>
   accepting (BrokerSubscribe ''t'') = Resolved ''ok'' \<and>
   hd (trace_of (subscribe accepting 200 one_subscribed ''t'' 2)) =
     ClientRequest (BrokerSubscribe ''t'') \<and>
   result_of (subscribe accepting 200 one_subscribed ''t'' 2) = Resolved () \<and>
   map_get (handlers (state_of (subscribe accepting 200 one_subscribed ''t'' 2))) ''t'' =
     Some [1, 2] \<and>
   refusing (BrokerSubscribe ''t'') = Rejected (Error ''refused'') \<and>
   result_of (subscribe refusing 200 one_subscribed ''t'' 2) = Rejected (Error ''refused'') \<and>
   state_of (subscribe refusing 200 one_subscribed ''t'' 2) = one_subscribed \<and>
   silent (BrokerSubscribe ''t'') = Pending \<and>
   result_of (subscribe silent 200 new_TopicManager ''t'' 2) = Pending \<and>
   state_of (subscribe silent 200 new_TopicManager ''t'' 2) = new_TopicManager"
proof -
  have s: "map_get (handlers one_subscribed) ''t'' = Some [1]"
    by (simp add: topic_eval reading_eval container_eval)
  have a: "accepting (BrokerSubscribe ''t'') = Resolved ''ok''"
    by (simp add: accepting_def)
  have r: "refusing (BrokerSubscribe ''t'') = Rejected (Error ''refused'')"
    by (simp add: refusing_def)
  have p: "silent (BrokerSubscribe ''t'') = Pending"
    by (simp add: silent_def)
  note A = subscribe_always_asks_broker_first
    [of accepting 200 one_subscribed "''t''" 2 "''ok''" "Error ''refused''"]
  note R = subscribe_always_asks_broker_first
    [of refusing 200 one_subscribed "''t''" 2 "''ok''" "Error ''refused''"]
  note P = subscribe_always_asks_broker_first
    [of silent 200 new_TopicManager "''t''" 2 "''ok''" "Error ''refused''"]
  from A a s have A':
    "hd (trace_of (subscribe accepting 200 one_subscribed ''t'' 2)) =
       ClientRequest (BrokerSubscribe ''t'') \<and>
     result_of (subscribe accepting 200 one_subscribed ''t'' 2) = Resolved () \<and>
     map_get (handlers (state_of (subscribe accepting 200 one_subscribed ''t'' 2))) ''t'' =
       Some [1, 2]"
    by (simp add: set_add_def)
  from R r have R':
    "result_of (subscribe refusing 200 one_subscribed ''t'' 2) = Rejected (Error ''refused'') \<and>
     state_of (subscribe refusing 200 one_subscribed ''t'' 2) = one_subscribed"
    by simp
  from P p have P':
    "result_of (subscribe silent 200 new_TopicManager ''t'' 2) = Pending \<and>
     state_of (subscribe silent 200 new_TopicManager ''t'' 2) = new_TopicManager"
    by simp
  from s a r p A' R' P' show ?thesis by simp
qed

text \<open>
  C2, as the claim states it, fails: with handler 1 already subscribed to \<open>t\<close>,
  subscribing handler 2 to \<open>t\<close> sends a subscribe request to the broker all the same.
\<close>

theorem subscribe_existing_topic_counterexample:
  "map_has (handlers one_subscribed) ''t'' \<and>
   filter is_subscribe_request (trace_of (subscribe accepting 200 one_subscribed ''t'' 2)) =
     [ClientRequest (BrokerSubscribe ''t'')]"
  by (simp add: topic_eval reading_eval container_eval)

section \<open>TopicManager: unsubscribe without a handler\<close>

lemma unsubscribe_all_trace_head:
  "hd (trace_of (unsubscribe client tm t None)) = ClientRequest (BrokerUnsubscribe t)"
  by (simp add: unsubscribe_def unsubscribeFromBroker_def trace_of_def split: outcome.splits)

lemma unsubscribe_all_resolved:
  assumes "client (BrokerUnsubscribe t) = Resolved v"
  shows "result_of (unsubscribe client tm t None) = Resolved ()"
    and "map_get (handlers (state_of (unsubscribe client tm t None))) t = None"
    and "map_get (subscriptions (state_of (unsubscribe client tm t None))) t = None"
  using assms
  by (simp_all add: unsubscribe_def unsubscribeFromBroker_def result_of_def state_of_def
        map_get_map_delete)

text \<open>
  C8. \<open>unsubscribe(topic)\<close> without a handler sends the unsubscribe request to the
  broker first, whatever handlers the topic has; once the request is fulfilled the
  topic has no entry in the handler table nor in the subscription table, so a message
  for the topic that arrives afterwards calls no handler.
\<close>

theorem unsubscribe_topic_removes_every_handler:
  "hd (trace_of (unsubscribe client tm t None)) = ClientRequest (BrokerUnsubscribe t) \<and>
   (client (BrokerUnsubscribe t) = Resolved v \<longrightarrow>
      result_of (unsubscribe client tm t None) = Resolved () \<and>
      map_get (handlers (state_of (unsubscribe client tm t None))) t = None \<and>
      map_get (subscriptions (state_of (unsubscribe client tm t None))) t = None \<and>
      (msg_topic m = t \<longrightarrow>
         on_broker_message run (state_of (unsubscribe client tm t None)) m = []))"
  using unsubscribe_all_trace_head [of client tm t] unsubscribe_all_resolved [of client t v tm]
  by (simp add: on_broker_message_def)

theorem unsubscribe_topic_removes_every_handler_witness:
  "map_get (handlers two_subscribed) ''t'' = Some [1, 2] \<and>
   on_broker_message first_throws two_subscribed message_t =
     delivery_to first_throws message_t 1 @ delivery_to first_throws message_t 2 \<and>
   accepting (BrokerUnsubscribe ''t'') = Resolved ''ok'' \<and>
   msg_topic message_t = ''t'' \<and>
   hd (trace_of (unsubscribe accepting two_subscribed ''t'' None)) =
     ClientRequest (BrokerUnsubscribe ''t'') \<and>
   map_get (handlers (state_of (unsubscribe accepting two_subscribed ''t'' None))) ''t'' = None \<and>
   on_broker_message first_throws (state_of (unsubscribe accepting two_subscribed ''t'' None))
     message_t = []"
proof -
  have s: "map_get (handlers two_subscribed) ''t'' = Some [1, 2]"
    by (simp add: topic_eval reading_eval container_eval)
  have d: "on_broker_message first_throws two_subscribed message_t =
     delivery_to first_throws message_t 1 @ delivery_to first_throws message_t 2"
    by (simp add: topic_eval reading_eval container_eval)
  have a: "accepting (BrokerUnsubscribe ''t'') = Resolved ''ok''"
    by (simp add: accepting_def)
  have m: "msg_topic message_t = ''t''"
    by (simp add: message_t_def)
  from unsubscribe_topic_removes_every_handler
    [of accepting two_subscribed "''t''" "''ok''" message_t first_throws] a m s d
  show ?thesis by simp
qed

section \<open>TopicManager: delivery of an inbound message\<close>








text \<open>
  A thrown value on which the logger throws ends the delivery as well: the exception
  of the logger leaves the loop and is logged by the outer \<open>catch\<close>.
\<close>

lemma unloggable_throw_ends_delivery:
  "on_broker_message first_throws_circular two_subscribed message_t =
     [TopicHandlerCall 1 ''d'' \<lparr>topic = ''t'', timestamp = 300, publisher = ''p''\<rparr>,
      LoggerErrorValue ''Error in topic handler for t'' (AValue None False),
      LoggerError ''Error handling incoming message'' TypeError]"
  by (simp add: topic_eval reading_eval container_eval)

section \<open>RequestManager: inbound calls\<close>

lemma promise_race_timer:
  "promise_race p (Settles T (Inl e)) =
     (case p of
        Never \<Rightarrow> Settles T (Inl e)
      | Settles d r \<Rightarrow> (if T < d then Settles T (Inl e) else Settles d r))"
  by (cases p) auto

lemma context_event_reply: "is_reply (context_event c)"
  by (cases c) simp_all

lemma context_event_no_call: "\<not> is_method_call (context_event c)"
  by (cases c) simp_all

lemma logger_error_no_reply: "\<not> is_reply (logger_error text v)"
  by (cases v) simp_all

lemma logger_error_no_method_call: "\<not> is_method_call (logger_error text v)"
  by (cases v) simp_all

lemma replies_calls_until: "filter is_reply (calls_until t r) = calls_until t r"
  by (simp add: calls_until_def filter_map o_def context_event_reply)

lemma replies_calls_after: "filter is_reply (calls_after t r) = calls_after t r"
  by (simp add: calls_after_def filter_map o_def context_event_reply)

lemma method_calls_calls_until: "filter is_method_call (calls_until t r) = []"
  by (simp add: calls_until_def filter_map o_def context_event_no_call)

lemma method_calls_calls_after: "filter is_method_call (calls_after t r) = []"
  by (simp add: calls_after_def filter_map o_def context_event_no_call)

lemma length_calls: "length (calls_until t r) + length (calls_after t r) = length (context_calls r)"
  by (simp add: calls_until_def calls_after_def sum_length_filter_compl)

lemma replies_catch:
  "filter is_reply (snd (catch_request_error method v)) =
     (if answerable v then [error_reply v] else [])"
  by (cases v rule: error_reply.cases) (simp_all add: logger_error_no_reply)

lemma result_catch:
  "fst (catch_request_error method v) = (if answerable v then Resolved () else Rejected TypeError)"
  by (cases v) simp_all

lemma method_calls_catch:
  "filter is_method_call (snd (catch_request_error method v)) = []"
  by (cases v rule: error_reply.cases) (simp_all add: logger_error_no_method_call)

text \<open>
  The trace of a call to a registered method: the call of the handler, then what the
  function itself logs and replies, between the calls the handler makes on the context.
\<close>

lemma handle_registered:
  assumes "map_get (methods rm) (ctx_method ctx) = Some mi"
  shows "\<exists>at r tr.
      handleIncomingRequest rm run ctx =
        (r, rm, MethodHandlerCall (handler mi) (ctx_payload ctx) #
            calls_until at (run (handler mi) (ctx_payload ctx) ctx) @ tr @
            calls_after at (run (handler mi) (ctx_payload ctx) ctx)) \<and>
      length (filter is_reply tr) \<le> 1 \<and>
      filter is_method_call tr = [] \<and>
      (fails_answerably (completion (run (handler mi) (ctx_payload ctx) ctx)) \<longrightarrow>
         r = Resolved () \<and>
         filter is_reply tr =
           [spec_reply (setTimeout_delay (method_timeout mi))
              (completion (run (handler mi) (ctx_payload ctx) ctx))])"
proof -
  let ?hr = "run (handler mi) (ctx_payload ctx) ctx"
  let ?T = "setTimeout_delay (method_timeout mi)"
  show ?thesis
  proof (cases "completion ?hr")
    case (Throws v)
    obtain r tr where c: "catch_request_error (ctx_method ctx) v = (r, tr)"
      by (cases "catch_request_error (ctx_method ctx) v") auto
    from c have 1: "filter is_reply tr = (if answerable v then [error_reply v] else [])"
      using replies_catch [of "ctx_method ctx" v] by simp
    from c have 2: "r = (if answerable v then Resolved () else Rejected TypeError)"
      using result_catch [of "ctx_method ctx" v] by simp
    from c have 3: "filter is_method_call tr = []"
      using method_calls_catch [of "ctx_method ctx" v] by simp
    have "handleIncomingRequest rm run ctx =
        (r, rm, MethodHandlerCall (handler mi) (ctx_payload ctx) #
            calls_until 0 ?hr @ tr @ calls_after 0 ?hr)"
      using assms Throws c by (simp add: handleIncomingRequest_def Let_def)
    with 1 2 3 Throws show ?thesis
      by (intro exI [of _ 0] exI [of _ r] exI [of _ tr]) (simp add: spec_reply_def)
  next
    case (Promise p)
    show ?thesis
    proof (cases "promise_race p (Settles ?T (Inl (AnError ''Method timeout'')))")
      case Never
      then show ?thesis
        by (cases p) (simp_all add: promise_race_timer split: if_splits)
    next
      case (Settles d x)
      show ?thesis
      proof (cases x)
        case (Inr result)
        have h: "handleIncomingRequest rm run ctx =
          (Resolved (), rm, MethodHandlerCall (handler mi) (ctx_payload ctx) #
            calls_until d ?hr @ [ContextSuccess result] @ calls_after d ?hr)"
          using assms Promise Settles Inr by (simp add: handleIncomingRequest_def Let_def)
        have s: "spec_reply ?T (completion ?hr) = ContextSuccess result"
          using Promise Settles Inr
          by (cases p) (auto simp: spec_reply_def promise_race_timer split: if_splits)
        from h s show ?thesis
          by (intro exI [of _ d] exI [of _ "Resolved ()"] exI [of _ "[ContextSuccess result]"])
            simp
      next
        case (Inl v)
        obtain r tr where c: "catch_request_error (ctx_method ctx) v = (r, tr)"
          by (cases "catch_request_error (ctx_method ctx) v") auto
        from c have 1: "filter is_reply tr = (if answerable v then [error_reply v] else [])"
          using replies_catch [of "ctx_method ctx" v] by simp
        from c have 2: "r = (if answerable v then Resolved () else Rejected TypeError)"
          using result_catch [of "ctx_method ctx" v] by simp
        from c have 3: "filter is_method_call tr = []"
          using method_calls_catch [of "ctx_method ctx" v] by simp
        have h: "handleIncomingRequest rm run ctx =
          (r, rm, MethodHandlerCall (handler mi) (ctx_payload ctx) #
            calls_until d ?hr @ tr @ calls_after d ?hr)"
          using assms Promise Settles Inl c by (simp add: handleIncomingRequest_def Let_def)
        have s: "fails_answerably (completion ?hr) \<longrightarrow>
            answerable v \<and> spec_reply ?T (completion ?hr) = error_reply v"
          using Promise Settles Inl
          by (cases p) (auto simp: spec_reply_def promise_race_timer split: if_splits)
        from h 1 2 3 s show ?thesis
          by (intro exI [of _ d] exI [of _ r] exI [of _ tr]) auto
      qed
    qed
  qed
qed


lemma registered_trace_facts:
  assumes "map_get (methods rm) (ctx_method ctx) = Some mi"
  shows "filter is_method_call (trace_of (handleIncomingRequest rm run ctx)) =
       [MethodHandlerCall (handler mi) (ctx_payload ctx)]"
    and "length (filter is_reply (trace_of (handleIncomingRequest rm run ctx))) \<le>
       length (context_calls (run (handler mi) (ctx_payload ctx) ctx)) + 1"
    and "fails_answerably (completion (run (handler mi) (ctx_payload ctx) ctx)) \<Longrightarrow>
       result_of (handleIncomingRequest rm run ctx) = Resolved () \<and>
       length (filter is_reply (trace_of (handleIncomingRequest rm run ctx))) =
         length (context_calls (run (handler mi) (ctx_payload ctx) ctx)) + 1"
    and "fails_answerably (completion (run (handler mi) (ctx_payload ctx) ctx)) \<Longrightarrow>
       context_calls (run (handler mi) (ctx_payload ctx) ctx) = [] \<Longrightarrow>
       filter is_reply (trace_of (handleIncomingRequest rm run ctx)) =
         [spec_reply (setTimeout_delay (method_timeout mi))
            (completion (run (handler mi) (ctx_payload ctx) ctx))]"
proof -
  let ?hr = "run (handler mi) (ctx_payload ctx) ctx"
  from handle_registered [OF assms, of run] obtain at r tr where
    h: "handleIncomingRequest rm run ctx =
        (r, rm, MethodHandlerCall (handler mi) (ctx_payload ctx) #
            calls_until at ?hr @ tr @ calls_after at ?hr)"
    and le: "length (filter is_reply tr) \<le> 1"
    and mc: "filter is_method_call tr = []"
    and ans: "fails_answerably (completion ?hr) \<longrightarrow>
         r = Resolved () \<and>
         filter is_reply tr = [spec_reply (setTimeout_delay (method_timeout mi)) (completion ?hr)]"
    by blast
  have len: "length (filter is_reply (trace_of (handleIncomingRequest rm run ctx))) =
      length (context_calls ?hr) + length (filter is_reply tr)"
    using length_calls [of at ?hr]
    by (simp add: h trace_of_def replies_calls_until replies_calls_after)
  show "filter is_method_call (trace_of (handleIncomingRequest rm run ctx)) =
       [MethodHandlerCall (handler mi) (ctx_payload ctx)]"
    by (simp add: h trace_of_def mc method_calls_calls_until method_calls_calls_after)
  show "length (filter is_reply (trace_of (handleIncomingRequest rm run ctx))) \<le>
       length (context_calls ?hr) + 1"
    using len le by simp
  show "result_of (handleIncomingRequest rm run ctx) = Resolved () \<and>
       length (filter is_reply (trace_of (handleIncomingRequest rm run ctx))) =
         length (context_calls ?hr) + 1"
    if "fails_answerably (completion ?hr)"
    using that ans len by (simp add: h result_of_def)
  show "filter is_reply (trace_of (handleIncomingRequest rm run ctx)) =
         [spec_reply (setTimeout_delay (method_timeout mi)) (completion ?hr)]"
    if "fails_answerably (completion ?hr)" and "context_calls ?hr = []"
    using that ans
    by (simp add: h trace_of_def calls_until_def calls_after_def)
qed




text \<open>
  A promise rejected with \<open>undefined\<close> is outside the amended statement: the \<open>catch\<close>
  block logs, throws on reading \<open>message\<close>, and no reply is sent.
\<close>

lemma rejection_with_undefined_gets_no_reply:
  "result_of (handleIncomingRequest x_registered undefined_rejecting_handlers call_x) =
     Rejected TypeError \<and>
   trace_of (handleIncomingRequest x_registered undefined_rejecting_handlers call_x) =
     [MethodHandlerCall 1 ''p'', LoggerErrorValue ''Error handling request: x'' Nullish]"
  by (simp add: request_eval reading_eval container_eval)

text \<open>
  C4. An inbound call whose method name has no registration is answered with the error
  reply \<open>Method <name> not found\<close>, after the error is logged, and no handler is
  called.
\<close>

theorem unknown_method_gets_not_found:
  assumes "map_get (methods rm) (ctx_method ctx) = None"
  shows "trace_of (handleIncomingRequest rm run ctx) =
      [LoggerError (''Error handling request: '' @ ctx_method ctx)
         (Error (''Method '' @ ctx_method ctx @ '' not found'')),
       ContextError ''METHOD_ERROR'' (''Method '' @ ctx_method ctx @ '' not found'')] \<and>
     filter is_method_call (trace_of (handleIncomingRequest rm run ctx)) = [] \<and>
     result_of (handleIncomingRequest rm run ctx) = Resolved ()"
  using assms by (simp add: handleIncomingRequest_def trace_of_def result_of_def)

theorem unknown_method_gets_not_found_witness:
  "map_get (methods x_registered) (ctx_method call_y) = None \<and>
   trace_of (handleIncomingRequest x_registered slow_handlers call_y) =
      [LoggerError ''Error handling request: y'' (Error ''Method y not found''),
       ContextError ''METHOD_ERROR'' ''Method y not found''] \<and>
   filter is_method_call (trace_of (handleIncomingRequest x_registered slow_handlers call_y)) = []"
proof -
  have s: "map_get (methods x_registered) (ctx_method call_y) = None"
    by (simp add: request_eval reading_eval container_eval)
  from unknown_method_gets_not_found [OF s, of slow_handlers] s show ?thesis
    by (simp add: call_y_def)
qed

section \<open>RequestManager: registration\<close>

lemma calls_registered:
  assumes "map_get (methods rm) (ctx_method ctx) = Some mi"
  shows "filter is_method_call (trace_of (handleIncomingRequest rm run ctx)) =
     [MethodHandlerCall (handler mi) (ctx_payload ctx)]"
  using assms by (rule registered_trace_facts(1))

text \<open>
  C7. When the name is already registered, \<open>registerMethod\<close> throws
  \<open>Method <name> already registered\<close> and leaves the manager as it was, so an inbound
  call to the name still calls the handler registered first. When the name is free,
  the registration is stored with the handler and with the timeout of the options, or
  the manager's default timeout when the options have none.
\<close>

theorem registerMethod_duplicate_and_timeout:
  "(map_get (methods rm) name = Some mi \<longrightarrow>
      result_of (registerMethod rm name h2 opts) =
        Inl (Error (''Method '' @ name @ '' already registered'')) \<and>
      state_of (registerMethod rm name h2 opts) = rm \<and>
      (ctx_method ctx = name \<longrightarrow>
         filter is_method_call
           (trace_of
              (handleIncomingRequest (state_of (registerMethod rm name h2 opts)) run ctx)) =
         [MethodHandlerCall (handler mi) (ctx_payload ctx)])) \<and>
   (map_get (methods rm) name = None \<longrightarrow>
      result_of (registerMethod rm name h2 opts) = Inr () \<and>
      map_get (methods (state_of (registerMethod rm name h2 opts))) name =
        Some \<lparr>handler = h2, options = [''timeout'' \<mapsto> defaultTimeout rm] ++ opts\<rparr> \<and>
      method_timeout \<lparr>handler = h2, options = [''timeout'' \<mapsto> defaultTimeout rm] ++ opts\<rparr> =
        (case opts ''timeout'' of Some t \<Rightarrow> t | None \<Rightarrow> defaultTimeout rm))"
proof -
  have dup: "map_get (methods rm) name = Some mi \<Longrightarrow>
      result_of (registerMethod rm name h2 opts) =
        Inl (Error (''Method '' @ name @ '' already registered'')) \<and>
      state_of (registerMethod rm name h2 opts) = rm"
    by (simp add: registerMethod_def result_of_def state_of_def map_has_map_get)
  have still: "map_get (methods rm) name = Some mi \<Longrightarrow> ctx_method ctx = name \<Longrightarrow>
      filter is_method_call (trace_of (handleIncomingRequest rm run ctx)) =
         [MethodHandlerCall (handler mi) (ctx_payload ctx)]"
    using calls_registered [of rm ctx mi run] by simp
  have fresh: "map_get (methods rm) name = None \<Longrightarrow>
      result_of (registerMethod rm name h2 opts) = Inr () \<and>
      map_get (methods (state_of (registerMethod rm name h2 opts))) name =
        Some \<lparr>handler = h2, options = [''timeout'' \<mapsto> defaultTimeout rm] ++ opts\<rparr>"
    by (simp add: registerMethod_def result_of_def state_of_def map_has_map_get map_get_map_set)
  have tmo: "method_timeout \<lparr>handler = h2, options = [''timeout'' \<mapsto> defaultTimeout rm] ++ opts\<rparr> =
        (case opts ''timeout'' of Some t \<Rightarrow> t | None \<Rightarrow> defaultTimeout rm)"
    by (simp add: method_timeout_def map_add_def split: option.splits)
  from dup still fresh tmo show ?thesis by simp
qed


theorem registerMethod_duplicate_and_timeout_witness:
  "map_get (methods x_registered) ''x'' =
     Some \<lparr>handler = 1, options = [''timeout'' \<mapsto> 30000] ++ [''timeout'' \<mapsto> 10]\<rparr> \<and>
   ctx_method call_x = ''x'' \<and>
   result_of (registerMethod x_registered ''x'' 2 Map.empty) =
     Inl (Error ''Method x already registered'') \<and>
   state_of (registerMethod x_registered ''x'' 2 Map.empty) = x_registered \<and>
   filter is_method_call
     (trace_of
        (handleIncomingRequest (state_of (registerMethod x_registered ''x'' 2 Map.empty))
           slow_handlers call_x)) = [MethodHandlerCall 1 ''p''] \<and>
   map_get (methods new_RequestManager) ''x'' = None \<and>
   result_of (registerMethod new_RequestManager ''x'' 1 [''timeout'' \<mapsto> 10]) = Inr () \<and>
   method_timeout \<lparr>handler = 1, options = [''timeout'' \<mapsto> 30000] ++ [''timeout'' \<mapsto> 10]\<rparr> = 10 \<and>
   result_of (registerMethod new_RequestManager ''x'' 1 Map.empty) = Inr () \<and>
   method_timeout \<lparr>handler = 1, options = [''timeout'' \<mapsto> 30000] ++ Map.empty\<rparr> = 30000"
proof -
  let ?mi = "\<lparr>handler = 1, options = [''timeout'' \<mapsto> 30000] ++ [''timeout'' \<mapsto> 10]\<rparr>"
  have s: "map_get (methods x_registered) ''x'' = Some ?mi"
    by (simp add: request_eval reading_eval container_eval)
  have c: "ctx_method call_x = ''x''" "ctx_payload call_x = ''p''"
    by (simp_all add: call_x_def)
  have n: "map_get (methods new_RequestManager) ''x'' = None"
    by (simp add: new_RequestManager_def map_get_def)
  have d: "defaultTimeout new_RequestManager = 30000"
    by (simp add: new_RequestManager_def)
  note D = registerMethod_duplicate_and_timeout
    [of x_registered "''x''" ?mi 2 Map.empty call_x slow_handlers]
  note F = registerMethod_duplicate_and_timeout
    [of new_RequestManager "''x''" ?mi 1 "[''timeout'' \<mapsto> 10]" call_x slow_handlers]
  note G = registerMethod_duplicate_and_timeout
    [of new_RequestManager "''x''" ?mi 1 Map.empty call_x slow_handlers]
  from D s c have D':
    "result_of (registerMethod x_registered ''x'' 2 Map.empty) =
       Inl (Error ''Method x already registered'') \<and>
     state_of (registerMethod x_registered ''x'' 2 Map.empty) = x_registered \<and>
     filter is_method_call
       (trace_of
          (handleIncomingRequest (state_of (registerMethod x_registered ''x'' 2 Map.empty))
             slow_handlers call_x)) = [MethodHandlerCall 1 ''p'']"
    by auto
  from F n d have F':
    "result_of (registerMethod new_RequestManager ''x'' 1 [''timeout'' \<mapsto> 10]) = Inr () \<and>
     method_timeout ?mi = 10"
    by simp
  from G n d have G':
    "result_of (registerMethod new_RequestManager ''x'' 1 Map.empty) = Inr () \<and>
     method_timeout \<lparr>handler = 1, options = [''timeout'' \<mapsto> 30000] ++ Map.empty\<rparr> = 30000"
    by simp
  from s c n D' F' G' show ?thesis by blast
qed

section \<open>Shutdown and outstanding calls\<close>

lemma sendRequest_keeps_pendingRequests:
  "pendingRequests (state_of (sendRequest client rm target method d opts)) = pendingRequests rm"
  by (simp add: sendRequest_def state_of_def Let_def split: outcome.splits)

lemma unsubscribe_no_reject:
  "filter is_pending_reject (trace_of (unsubscribe client tm t ho)) = []"
  by (simp add: unsubscribe_def unsubscribeFromBroker_def trace_of_def Let_def
       split: option.splits outcome.splits)

lemma unsubscribe_each_no_reject:
  "filter is_pending_reject (trace_of (unsubscribe_each client tm ts)) = []"
proof (induction ts arbitrary: tm)
  case Nil
  then show ?case by (simp add: trace_of_def)
next
  case (Cons t ts)
  obtain r tm1 tr where u: "unsubscribe client tm t None = (r, tm1, tr)"
    by (cases "unsubscribe client tm t None") auto
  have tr: "filter is_pending_reject tr = []"
    using unsubscribe_no_reject [of client tm t None] u by (simp add: trace_of_def)
  obtain r2 tm2 tr2 where e: "unsubscribe_each client tm1 ts = (r2, tm2, tr2)"
    by (cases "unsubscribe_each client tm1 ts") auto
  have tr2: "filter is_pending_reject tr2 = []"
    using Cons.IH [of tm1] e by (simp add: trace_of_def)
  show ?case using u e tr tr2 by (cases r) (simp_all add: trace_of_def)
qed

lemma stop_no_reject:
  "filter is_pending_reject (trace_of (stop client disconnect sat)) = [] \<and>
   requests (state_of (stop client disconnect sat)) = requests sat"
proof -
  obtain r tm tr where c: "TopicManager_cleanup client (topics sat) = (r, tm, tr)"
    by (cases "TopicManager_cleanup client (topics sat)") auto
  have "filter is_pending_reject tr = []"
    using unsubscribe_each_no_reject [of client "topics sat" "map_keys (subscriptions (topics sat))"] c
    by (simp add: TopicManager_cleanup_def trace_of_def)
  then show ?thesis using c
    by (cases r; cases disconnect) (simp_all add: stop_def trace_of_def state_of_def)
qed

text \<open>
  C6. The claim asks that a call still awaited when the node stops is rejected with
  \<open>Service stopping\<close>. \<open>sendRequest\<close> makes no entry in \<open>pendingRequests\<close>, and
  \<open>stop\<close> does not call the cleanup of the request manager: a request whose promise
  has not settled leaves \<open>pendingRequests\<close> empty, \<open>stop\<close> then rejects nothing, and
  the cleanup of the request manager, were it called, would find nothing to reject.
\<close>

theorem stop_leaves_outstanding_request_pending:
  "result_of (request silent new_Satellite ''svc'' ''m'' ''d'') = Pending \<and>
   trace_of (request silent new_Satellite ''svc'' ''m'' ''d'') =
     [ClientRequest (BrokerRequest ''svc'' ''m'' ''d'' 30000)] \<and>
   pendingRequests (requests (state_of (request silent new_Satellite ''svc'' ''m'' ''d''))) = [] \<and>
   trace_of (stop silent (Resolved ()) (state_of (request silent new_Satellite ''svc'' ''m'' ''d''))) =
     [LoggerInfo ''Stopping service...'', ClientDisconnect, EventsEmit ''stopped'',
      LoggerInfo ''Service stopped''] \<and>
   filter is_pending_reject
     (trace_of (stop silent (Resolved ()) (state_of (request silent new_Satellite ''svc'' ''m'' ''d'')))) = [] \<and>
   snd (RequestManager_cleanup (requests (state_of (request silent new_Satellite ''svc'' ''m'' ''d'')))) = []"
  by (simp add: satellite_eval request_eval topic_eval reading_eval container_eval)

end
